theory Spec2Isabelle
  imports Main
begin

section \<open>Python primitives used by \<open>poetry_scripts.py\<close>\<close>

text \<open>
  Exceptions the script can raise are values of \<open>error\<close>. A Python \<open>str\<close> is a
  \<open>string\<close>; all string constants of the script that take part in a comparison are
  ASCII.
\<close>

datatype error =
    IndexError
  | CalledProcessError int "string list"
  | FileNotFoundError
  | NotADirectoryError
  | IsADirectoryError
  | OSError

text \<open>\<^verbatim>\<open>s.startswith(p)\<close> and \<^verbatim>\<open>s.endswith(p)\<close>.\<close>

definition startswith :: "string \<Rightarrow> string \<Rightarrow> bool" where
  "startswith s p = (take (length p) s = p)"

definition endswith :: "string \<Rightarrow> string \<Rightarrow> bool" where
  "endswith s p = (length p \<le> length s \<and> drop (length s - length p) s = p)"

text \<open>
  \<^verbatim>\<open>s.split(sep)\<close> for a separator of one character: the segments between the
  occurrences of \<open>sep\<close>, in order. The result is never empty
  (\<^verbatim>\<open>"".split("=") == [""]\<close>).
\<close>

fun str_split :: "char \<Rightarrow> string \<Rightarrow> string list" where
  "str_split sep [] = [[]]"
| "str_split sep (c # cs) =
     (if c = sep then [] # str_split sep cs
      else (c # hd (str_split sep cs)) # tl (str_split sep cs))"

text \<open>\<^verbatim>\<open>xs[i]\<close> for a non-negative index: out of range raises \<open>IndexError\<close>.\<close>

definition getitem :: "'a list \<Rightarrow> nat \<Rightarrow> error + 'a" where
  "getitem xs i = (if i < length xs then Inr (xs ! i) else Inl IndexError)"

text \<open>\<^verbatim>\<open>sep.join(xs)\<close>.\<close>

fun str_join :: "string \<Rightarrow> string list \<Rightarrow> string" where
  "str_join sep [] = []"
| "str_join sep [x] = x"
| "str_join sep (x # y # ys) = x @ sep @ str_join sep (y # ys)"

section \<open>The argument parser of \<open>run_example\<close>\<close>

text \<open>
  The three local variables \<open>ticker\<close>, \<open>period\<close> and \<open>strategy\<close> of
  \<open>run_example\<close>.
\<close>

record params =
  ticker :: string
  period :: string
  strategy :: string

text \<open>The expression \<^verbatim>\<open>arg.split("=")[1]\<close>.\<close>

definition flag_value :: "string \<Rightarrow> error + string" where
  "flag_value arg = getitem (str_split CHR ''='' arg) 1"

text \<open>The body of the loop \<^verbatim>\<open>for arg in args\<close>: an \<open>if\<close>/\<open>elif\<close> chain.\<close>

definition parse_arg :: "string \<Rightarrow> params \<Rightarrow> error + params" where
  "parse_arg arg p =
     (if startswith arg ''--ticker='' then
        (case flag_value arg of Inl e \<Rightarrow> Inl e | Inr v \<Rightarrow> Inr (p\<lparr>ticker := v\<rparr>))
      else if startswith arg ''--period='' then
        (case flag_value arg of Inl e \<Rightarrow> Inl e | Inr v \<Rightarrow> Inr (p\<lparr>period := v\<rparr>))
      else if startswith arg ''--strategy='' then
        (case flag_value arg of Inl e \<Rightarrow> Inl e | Inr v \<Rightarrow> Inr (p\<lparr>strategy := v\<rparr>))
      else Inr p)"

fun parse_args :: "string list \<Rightarrow> params \<Rightarrow> error + params" where
  "parse_args [] p = Inr p"
| "parse_args (arg # rest) p =
     (case parse_arg arg p of Inl e \<Rightarrow> Inl e | Inr p' \<Rightarrow> parse_args rest p')"

definition default_params :: params where
  "default_params = \<lparr>ticker = ''MSFT'', period = ''day'', strategy = ''simple''\<rparr>"

text \<open>
  Lines 98 to 110 of \<open>run_example\<close>: the defaults, then the loop under
  \<^verbatim>\<open>if args:\<close>, which \<open>None\<close> and the empty list both skip.
\<close>

definition example_params :: "string list option \<Rightarrow> error + params" where
  "example_params args =
     (case args of
        None \<Rightarrow> Inr default_params
      | Some as \<Rightarrow> if as = [] then Inr default_params else parse_args as default_params)"

section \<open>External processes and standard output\<close>

text \<open>
  An external invocation is its argument vector. The state of a run records the
  invocations launched so far, in order, and the lines printed so far. The outside world
  is a function \<open>exits\<close>: the exit code with which a command terminates, given the
  invocations that came before it. Every invocation is taken to launch and to terminate
  with an exit code.
\<close>

type_synonym command = "string list"

record io =
  procs :: "command list"
  stdout :: "string list"

type_synonym exits = "command list \<Rightarrow> command \<Rightarrow> int"

text \<open>
  A function of the script either returns normally, with the state it leaves
  (\<open>Inr\<close>), or raises, with the exception and the state at the raise (\<open>Inl\<close>).
\<close>

type_synonym outcome = "(error \<times> io) + io"

definition and_then :: "outcome \<Rightarrow> (io \<Rightarrow> outcome) \<Rightarrow> outcome" where
  "and_then r f = (case r of Inl x \<Rightarrow> Inl x | Inr s \<Rightarrow> f s)"

definition py_print :: "string \<Rightarrow> io \<Rightarrow> io" where
  "py_print line s = s\<lparr>stdout := stdout s @ [line]\<rparr>"

text \<open>
  \<^verbatim>\<open>subprocess.run(cmd, check=...)\<close>: the command is launched and waited for; with
  \<^verbatim>\<open>check=True\<close> a non-zero exit code raises \<open>CalledProcessError\<close>.
\<close>

definition subprocess_run :: "exits \<Rightarrow> command \<Rightarrow> bool \<Rightarrow> io \<Rightarrow> outcome" where
  "subprocess_run env cmd check s =
     (let rc = env (procs s) cmd;
          s' = s\<lparr>procs := procs s @ [cmd]\<rparr>
      in if check \<and> rc \<noteq> 0 then Inl (CalledProcessError rc cmd, s') else Inr s')"

text \<open>
  The pictographs of the printed messages, as their UTF-8 bytes: U+2705, U+1F50D,
  U+1F4DD, U+1F50E and U+1F4E6.
\<close>

definition check_mark :: string where
  "check_mark = [CHR 0xE2, CHR 0x9C, CHR 0x85]"

definition magnifier_left :: string where
  "magnifier_left = [CHR 0xF0, CHR 0x9F, CHR 0x94, CHR 0x8D]"

definition memo :: string where
  "memo = [CHR 0xF0, CHR 0x9F, CHR 0x93, CHR 0x9D]"

definition magnifier_right :: string where
  "magnifier_right = [CHR 0xF0, CHR 0x9F, CHR 0x94, CHR 0x8E]"

definition package :: string where
  "package = [CHR 0xF0, CHR 0x9F, CHR 0x93, CHR 0xA6]"

section \<open>The commands of the script\<close>

definition autoflake_cmd :: command where
  "autoflake_cmd = [''autoflake'', ''--recursive'', ''--remove-all-unused-imports'',
     ''--remove-unused-variables'', ''--in-place'', ''stonkwise'', ''tests'']"

definition black_cmd :: command where
  "black_cmd = [''black'', ''stonkwise'', ''tests'']"

definition isort_cmd :: command where
  "isort_cmd = [''isort'', ''stonkwise'', ''tests'']"

definition flake8_cmd :: command where
  "flake8_cmd = [''flake8'', ''stonkwise'', ''tests'']"

definition mypy_cmd :: command where
  "mypy_cmd = [''mypy'', ''stonkwise'']"

definition build_cmd :: command where
  "build_cmd = [''poetry'', ''build'']"

text \<open>\<open>run_format\<close>: three invocations with \<^verbatim>\<open>check=True\<close>.\<close>

definition run_format :: "exits \<Rightarrow> string list option \<Rightarrow> io \<Rightarrow> outcome" where
  "run_format env args s =
     and_then (subprocess_run env autoflake_cmd True
                 (py_print ''Removing unused imports with autoflake...'' s))
      (\<lambda>s. and_then (subprocess_run env black_cmd True
                 (py_print ''Formatting code with black...'' s))
      (\<lambda>s. and_then (subprocess_run env isort_cmd True
                 (py_print ''Sorting imports with isort...'' s))
      (\<lambda>s. Inr (py_print (check_mark @ '' Code formatting complete'') s))))"

text \<open>\<open>run_lint\<close>: two invocations with \<^verbatim>\<open>check=False\<close>.\<close>

definition run_lint :: "exits \<Rightarrow> string list option \<Rightarrow> io \<Rightarrow> outcome" where
  "run_lint env args s =
     and_then (subprocess_run env flake8_cmd False (py_print ''Running flake8...'' s))
      (\<lambda>s. and_then (subprocess_run env mypy_cmd False
                 (py_print (CHR 0x0A # ''Running mypy...'') s))
      (\<lambda>s. Inr (py_print (check_mark @ '' Linting complete'') s)))"

text \<open>
  \<open>run_example\<close>: the parser above, then one invocation of the program with the
  resolved parameters, \<^verbatim>\<open>check=False\<close>.
\<close>

definition run_example :: "exits \<Rightarrow> string list option \<Rightarrow> io \<Rightarrow> outcome" where
  "run_example env args s =
     (case example_params args of
        Inl e \<Rightarrow> Inl (e, s)
      | Inr p \<Rightarrow>
          (let cmd = [''python'', ''-m'', ''stonkwise'', ''analyze'',
                      ''--ticker'', ticker p,
                      ''--period'', period p,
                      ''--strategy'', strategy p]
           in subprocess_run env cmd False
                (py_print (''Running example: '' @ str_join '' '' cmd) s)))"

text \<open>\<open>run_verify\<close>: \<open>run_format\<close>, then \<open>run_lint\<close>, then the package builder.\<close>

definition run_verify :: "exits \<Rightarrow> string list option \<Rightarrow> io \<Rightarrow> outcome" where
  "run_verify env args s =
     and_then (run_format env args
                 (py_print (CHR 0x0A # memo @ '' Formatting code...'')
                    (py_print (magnifier_left @ '' Running pre-build verification...'') s)))
      (\<lambda>s. and_then (run_lint env args
                 (py_print (CHR 0x0A # magnifier_right @ '' Linting code...'') s))
      (\<lambda>s. and_then (subprocess_run env build_cmd False
                 (py_print (CHR 0x0A # package @ '' Building package...'') s))
      (\<lambda>s. Inr (py_print (CHR 0x0A # check_mark @ '' Verification and build complete!'') s))))"

section \<open>The file system\<close>

text \<open>
  The working directory is a tree of regular files and directories: a directory holds its
  entries in listing order, every entry has a name. Symbolic links, permissions and other
  processes are outside the model.
\<close>

datatype node = File string | Dir string "node list"

fun name :: "node \<Rightarrow> string" where
  "name (File n) = n"
| "name (Dir n es) = n"

fun is_dir :: "node \<Rightarrow> bool" where
  "is_dir (File n) = False"
| "is_dir (Dir n es) = True"

text \<open>
  A path string is resolved from the working directory: it is cut at \<open>/\<close>, empty
  components and \<open>.\<close> are skipped, and each remaining component names an entry of the
  directory reached so far.
\<close>

definition path_parts :: "string \<Rightarrow> string list" where
  "path_parts p = filter (\<lambda>c. c \<noteq> [] \<and> c \<noteq> ''.'') (str_split CHR ''/'' p)"

fun walk_path :: "node \<Rightarrow> string list \<Rightarrow> node option" where
  "walk_path e [] = Some e"
| "walk_path (File n) (c # cs) = None"
| "walk_path (Dir n es) (c # cs) =
     (case find (\<lambda>e. name e = c) es of None \<Rightarrow> None | Some e \<Rightarrow> walk_path e cs)"

text \<open>
  \<^verbatim>\<open>os.stat\<close>, as far as the script reads it: the node a path names, if any. The empty
  path names nothing, and a path with a trailing \<open>/\<close> names directories only.
\<close>

definition stat :: "node list \<Rightarrow> string \<Rightarrow> node option" where
  "stat fs p =
     (if p = [] then None
      else case walk_path (Dir ''.'' fs) (path_parts p) of
             Some (File n) \<Rightarrow> if last p = CHR ''/'' then None else Some (File n)
           | r \<Rightarrow> r)"

definition os_path_exists :: "node list \<Rightarrow> string \<Rightarrow> bool" where
  "os_path_exists fs p = (case stat fs p of None \<Rightarrow> False | Some e \<Rightarrow> True)"

definition os_path_isdir :: "node list \<Rightarrow> string \<Rightarrow> bool" where
  "os_path_isdir fs p = (case stat fs p of None \<Rightarrow> False | Some e \<Rightarrow> is_dir e)"

text \<open>\<^verbatim>\<open>os.scandir\<close> and \<^verbatim>\<open>os.listdir\<close>: the entries of a directory, and their names.\<close>

definition os_scandir :: "node list \<Rightarrow> string \<Rightarrow> error + node list" where
  "os_scandir fs p =
     (case stat fs p of
        None \<Rightarrow> Inl FileNotFoundError
      | Some (File n) \<Rightarrow> Inl NotADirectoryError
      | Some (Dir n es) \<Rightarrow> Inr es)"

definition os_listdir :: "node list \<Rightarrow> string \<Rightarrow> error + string list" where
  "os_listdir fs p = (case os_scandir fs p of Inl e \<Rightarrow> Inl e | Inr es \<Rightarrow> Inr (map name es))"

text \<open>Taking the entry at the end of a path out of its directory.\<close>

fun unlink :: "node list \<Rightarrow> string list \<Rightarrow> node list" where
  "unlink es [] = es"
| "unlink es [c] = filter (\<lambda>e. name e \<noteq> c) es"
| "unlink es (c # cs) =
     map (\<lambda>e. case e of
                 File n \<Rightarrow> File n
               | Dir n sub \<Rightarrow> if n = c then Dir n (unlink sub cs) else Dir n sub) es"

text \<open>
  \<^verbatim>\<open>shutil.rmtree\<close> removes a directory with all it holds and raises on anything else;
  \<^verbatim>\<open>os.remove\<close> removes a file and raises on anything else. Neither can remove the
  working directory itself.
\<close>

definition shutil_rmtree :: "node list \<Rightarrow> string \<Rightarrow> error + node list" where
  "shutil_rmtree fs p =
     (case stat fs p of
        None \<Rightarrow> Inl FileNotFoundError
      | Some (File n) \<Rightarrow> Inl NotADirectoryError
      | Some (Dir n es) \<Rightarrow>
          if path_parts p = [] then Inl OSError else Inr (unlink fs (path_parts p)))"

definition os_remove :: "node list \<Rightarrow> string \<Rightarrow> error + node list" where
  "os_remove fs p =
     (case stat fs p of
        None \<Rightarrow> Inl FileNotFoundError
      | Some (Dir n es) \<Rightarrow> Inl IsADirectoryError
      | Some (File n) \<Rightarrow> Inr (unlink fs (path_parts p)))"

text \<open>\<^verbatim>\<open>os.path.join\<close> of two components.\<close>

definition os_path_join :: "string \<Rightarrow> string \<Rightarrow> string" where
  "os_path_join a b =
     (if b \<noteq> [] \<and> hd b = CHR ''/'' then b
      else if a = [] \<or> last a = CHR ''/'' then a @ b
      else a @ ''/'' @ b)"

section \<open>The workspace cleaner\<close>

text \<open>The state of \<open>run_clean\<close>: the working directory and the lines printed.\<close>

record disk =
  cwd :: "node list"
  printed :: "string list"

definition report :: "string \<Rightarrow> disk \<Rightarrow> disk" where
  "report line s = s\<lparr>printed := printed s @ [line]\<rparr>"

definition fixed_artifacts :: "string list" where
  "fixed_artifacts =
     [''build/'', ''dist/'', ''.pytest_cache/'', ''.mypy_cache/'', ''htmlcov/'', ''.coverage'']"

text \<open>
  The loop over \<^verbatim>\<open>os.listdir(".")\<close> that appends to \<open>dirs_to_remove\<close>, and the list
  it leaves.
\<close>

fun add_egg_info :: "node list \<Rightarrow> string list \<Rightarrow> string list \<Rightarrow> string list" where
  "add_egg_info fs [] acc = acc"
| "add_egg_info fs (item # items) acc =
     add_egg_info fs items
       (if endswith item ''.egg-info'' \<and> os_path_isdir fs item then acc @ [item] else acc)"

definition dirs_to_remove :: "node list \<Rightarrow> error + string list" where
  "dirs_to_remove fs =
     (case os_listdir fs ''.'' of
        Inl e \<Rightarrow> Inl e
      | Inr items \<Rightarrow> Inr (add_egg_info fs items fixed_artifacts))"

text \<open>The loop \<^verbatim>\<open>for dir_path in dirs_to_remove\<close> and its body.\<close>

definition remove_path :: "string \<Rightarrow> disk \<Rightarrow> error + disk" where
  "remove_path dir_path s =
     (if os_path_exists (cwd s) dir_path then
        (case (if os_path_isdir (cwd s) dir_path then shutil_rmtree (cwd s) dir_path
               else os_remove (cwd s) dir_path) of
           Inl e \<Rightarrow> Inl e
         | Inr fs \<Rightarrow> Inr (report (''Removed '' @ dir_path) (s\<lparr>cwd := fs\<rparr>)))
      else Inr s)"

fun remove_paths :: "string list \<Rightarrow> disk \<Rightarrow> error + disk" where
  "remove_paths [] s = Inr s"
| "remove_paths (dir_path # rest) s =
     (case remove_path dir_path s of Inl e \<Rightarrow> Inl e | Inr s' \<Rightarrow> remove_paths rest s')"

text \<open>
  The body of the loop over \<^verbatim>\<open>os.walk(".")\<close>: the loop over \<open>dirs\<close>, then the loop
  over \<open>files\<close>.
\<close>

fun remove_pycache_dirs :: "string \<Rightarrow> string list \<Rightarrow> disk \<Rightarrow> error + disk" where
  "remove_pycache_dirs root [] s = Inr s"
| "remove_pycache_dirs root (dir_name # rest) s =
     (if dir_name = ''__pycache__'' then
        (let cache_dir = os_path_join root dir_name
         in case shutil_rmtree (cwd s) cache_dir of
              Inl e \<Rightarrow> Inl e
            | Inr fs \<Rightarrow>
                remove_pycache_dirs root rest (report (''Removed '' @ cache_dir) (s\<lparr>cwd := fs\<rparr>)))
      else remove_pycache_dirs root rest s)"

fun remove_pyc_files :: "string \<Rightarrow> string list \<Rightarrow> disk \<Rightarrow> error + disk" where
  "remove_pyc_files root [] s = Inr s"
| "remove_pyc_files root (file_name # rest) s =
     (if endswith file_name ''.pyc'' then
        (let pyc_file = os_path_join root file_name
         in case os_remove (cwd s) pyc_file of
              Inl e \<Rightarrow> Inl e
            | Inr fs \<Rightarrow>
                remove_pyc_files root rest (report (''Removed '' @ pyc_file) (s\<lparr>cwd := fs\<rparr>)))
      else remove_pyc_files root rest s)"

definition walk_body :: "string \<Rightarrow> string list \<Rightarrow> string list \<Rightarrow> disk \<Rightarrow> error + disk" where
  "walk_body root dirs files s =
     (case remove_pycache_dirs root dirs s of
        Inl e \<Rightarrow> Inl e
      | Inr s' \<Rightarrow> remove_pyc_files root files s')"

text \<open>
  \<^verbatim>\<open>os.walk\<close>, top-down, with the loop body run at each directory it yields:
  the directory is scanned (a directory that cannot be scanned is skipped without an
  error), its entries are split into \<open>dirs\<close> and \<open>files\<close>, the body runs, and then
  each name of \<open>dirs\<close> is walked in turn, in the state the file system has by then.
  The first argument bounds the depth of the recursion; \<open>None\<close> says the bound was too
  small.
\<close>

fun os_walk :: "nat \<Rightarrow> string \<Rightarrow> disk \<Rightarrow> (error + disk) option"
  and walk_subdirs :: "nat \<Rightarrow> string \<Rightarrow> string list \<Rightarrow> disk \<Rightarrow> (error + disk) option" where
  "os_walk 0 here s = None"
| "os_walk (Suc k) here s =
     (case os_scandir (cwd s) here of
        Inl e \<Rightarrow> Some (Inr s)
      | Inr entries \<Rightarrow>
          (let dirs = map name (filter is_dir entries);
               files = map name (filter (\<lambda>e. \<not> is_dir e) entries)
           in case walk_body here dirs files s of
                Inl e \<Rightarrow> Some (Inl e)
              | Inr s' \<Rightarrow> walk_subdirs k here dirs s'))"
| "walk_subdirs k here [] s = Some (Inr s)"
| "walk_subdirs k here (d # ds) s =
     (case os_walk k (os_path_join here d) s of
        None \<Rightarrow> None
      | Some (Inl e) \<Rightarrow> Some (Inl e)
      | Some (Inr s') \<Rightarrow> walk_subdirs k here ds s')"

text \<open>\<open>run_clean\<close>.\<close>

definition run_clean :: "nat \<Rightarrow> string list option \<Rightarrow> disk \<Rightarrow> (error + disk) option" where
  "run_clean fuel args s =
     (case dirs_to_remove (cwd s) of
        Inl e \<Rightarrow> Some (Inl e)
      | Inr paths \<Rightarrow>
          (case remove_paths paths s of
             Inl e \<Rightarrow> Some (Inl e)
           | Inr s1 \<Rightarrow>
               (case os_walk fuel ''.'' s1 of
                  None \<Rightarrow> None
                | Some (Inl e) \<Rightarrow> Some (Inl e)
                | Some (Inr s2) \<Rightarrow> Some (Inr (report (check_mark @ '' Clean complete'') s2)))))"

text \<open>
  Well-formed directories: an entry's name is not empty, not \<open>.\<close> or \<open>..\<close>, and has
  no \<open>/\<close>; the names in one directory are all different. The depth of a tree bounds the
  recursion of the walk.
\<close>

definition valid_name :: "string \<Rightarrow> bool" where
  "valid_name n = (n \<noteq> [] \<and> n \<noteq> ''.'' \<and> n \<noteq> ''..'' \<and> CHR ''/'' \<notin> set n)"

fun wf_node :: "node \<Rightarrow> bool" where
  "wf_node (File n) = valid_name n"
| "wf_node (Dir n es) = (valid_name n \<and> distinct (map name es) \<and> (\<forall>e\<in>set es. wf_node e))"

definition wf_dir :: "node list \<Rightarrow> bool" where
  "wf_dir es = (distinct (map name es) \<and> (\<forall>e\<in>set es. wf_node e))"


section \<open>What the cleaner leaves: a specification over the tree\<close>



text \<open>
  An entry survives the body of the walk in its directory unless it is a directory named
  \<open>__pycache__\<close> or a file whose name ends with \<open>.pyc\<close>.
\<close>

fun kept :: "node \<Rightarrow> bool" where
  "kept (File n) = (\<not> endswith n ''.pyc'')"
| "kept (Dir n es) = (n \<noteq> ''__pycache__'')"

fun purge :: "node \<Rightarrow> node" where
  "purge (File n) = File n"
| "purge (Dir n es) = Dir n (map purge (filter kept es))"

definition purge_dir :: "node list \<Rightarrow> node list" where
  "purge_dir es = map purge (filter kept es)"



section \<open>Properties of the argument parser\<close>

lemma str_split_not_Nil: "str_split c s \<noteq> []"
  by (induction s) auto

lemma str_split_append: "str_split c (a @ c # b) = str_split c a @ str_split c b"
proof (induction a)
  case Nil show ?case by simp
next
  case (Cons x a)
  have "str_split c a \<noteq> []" by (rule str_split_not_Nil)
  then show ?case using Cons by (cases "str_split c a") auto
qed

lemma str_split_no_sep: "c \<notin> set s \<Longrightarrow> str_split c s = [s]"
  by (induction s) auto

lemma hd_str_split: "hd (str_split c s) = takeWhile (\<lambda>x. x \<noteq> c) s"
  by (induction s) auto

lemma startswithD: "startswith s p \<Longrightarrow> \<exists>v. s = p @ v"
  unfolding startswith_def by (metis append_take_drop_id)

lemma startswith_append: "startswith (p @ v) p"
  by (simp add: startswith_def)

lemma split_flag:
  assumes "CHR ''='' \<notin> set k"
  shows "str_split CHR ''='' (k @ CHR ''='' # v) = k # str_split CHR ''='' v"
  using assms by (simp add: str_split_append str_split_no_sep)

lemma flag_value_flag:
  assumes "CHR ''='' \<notin> set k"
  shows "flag_value (k @ CHR ''='' # v) = Inr (takeWhile (\<lambda>x. x \<noteq> CHR ''='') v)"
proof -
  have ne: "str_split CHR ''='' v \<noteq> []" by (rule str_split_not_Nil)
  then obtain w ws where w: "str_split CHR ''='' v = w # ws" by (cases "str_split CHR ''='' v") auto
  have "w = takeWhile (\<lambda>x. x \<noteq> CHR ''='') v" using hd_str_split[of "CHR ''=''" v] w by simp
  then show ?thesis using assms w by (simp add: flag_value_def getitem_def split_flag)
qed

lemma flag_value_ticker: "flag_value (''--ticker='' @ v) = Inr (takeWhile (\<lambda>x. x \<noteq> CHR ''='') v)"
  using flag_value_flag[of "''--ticker''" v] by simp

lemma flag_value_period: "flag_value (''--period='' @ v) = Inr (takeWhile (\<lambda>x. x \<noteq> CHR ''='') v)"
  using flag_value_flag[of "''--period''" v] by simp

lemma flag_value_strategy: "flag_value (''--strategy='' @ v) = Inr (takeWhile (\<lambda>x. x \<noteq> CHR ''='') v)"
  using flag_value_flag[of "''--strategy''" v] by simp

lemma parse_arg_total: "\<exists>p'. parse_arg arg p = Inr p'"
proof -
  have "\<exists>v. flag_value arg = Inr v" if "startswith arg ''--ticker=''"
    using startswithD[OF that] flag_value_ticker by metis
  moreover have "\<exists>v. flag_value arg = Inr v" if "startswith arg ''--period=''"
    using startswithD[OF that] flag_value_period by metis
  moreover have "\<exists>v. flag_value arg = Inr v" if "startswith arg ''--strategy=''"
    using startswithD[OF that] flag_value_strategy by metis
  ultimately show ?thesis unfolding parse_arg_def by (auto split: sum.splits)
qed

lemma parse_args_total: "\<exists>p'. parse_args as p = Inr p'"
proof (induction as arbitrary: p)
  case Nil show ?case by simp
next
  case (Cons a as)
  obtain p' where "parse_arg a p = Inr p'" using parse_arg_total by blast
  then show ?case using Cons[of p'] by simp
qed

lemma parse_args_append:
  "parse_args (xs @ ys) p = (case parse_args xs p of Inl e \<Rightarrow> Inl e | Inr p' \<Rightarrow> parse_args ys p')"
  by (induction xs arbitrary: p) (auto split: sum.splits)

lemma parse_arg_other:
  "\<not> startswith t ''--ticker='' \<Longrightarrow> \<not> startswith t ''--period='' \<Longrightarrow>
   \<not> startswith t ''--strategy='' \<Longrightarrow> parse_arg t p = Inr p"
  by (simp add: parse_arg_def)

lemma parse_args_skip:
  assumes "parse_arg t = Inr"
  shows "parse_args (xs @ t # ys) p = parse_args (xs @ ys) p"
  using assms by (simp add: parse_args_append split: sum.splits)

lemma example_params_Some: "example_params (Some as) = parse_args as default_params"
  by (cases as) (simp_all add: example_params_def)

text \<open>
  Claim C5. A token that starts with none of \<open>--ticker=\<close>, \<open>--period=\<close>,
  \<open>--strategy=\<close> (a token without \<open>=\<close> among them), at any position of the
  argument list, leaves the resolved parameters as they are without it, and the parser
  returns normally.
\<close>
theorem unrecognized_token_ignored:
  assumes "\<not> startswith t ''--ticker=''" and "\<not> startswith t ''--period=''"
    and "\<not> startswith t ''--strategy=''"
  shows "example_params (Some (xs @ t # ys)) = example_params (Some (xs @ ys)) \<and>
         (\<exists>p. example_params (Some (xs @ t # ys)) = Inr p)"
proof -
  have "parse_arg t = Inr" using assms by (auto simp: parse_arg_other)
  then have "parse_args (xs @ t # ys) default_params = parse_args (xs @ ys) default_params"
    by (rule parse_args_skip)
  then show ?thesis using parse_args_total[of "xs @ t # ys" default_params]
    by (simp add: example_params_Some)
qed

lemma not_sw_tp: "startswith a ''--ticker='' \<Longrightarrow> \<not> startswith a ''--period=''"
  and not_sw_ts: "startswith a ''--ticker='' \<Longrightarrow> \<not> startswith a ''--strategy=''"
  and not_sw_ps: "startswith a ''--period='' \<Longrightarrow> \<not> startswith a ''--strategy=''"
  by (auto simp: startswith_def dest!: arg_cong[where f="\<lambda>s. s ! 2"])

lemma parse_arg_ticker_keep:
  "\<not> startswith a ''--ticker='' \<Longrightarrow> parse_arg a p = Inr p' \<Longrightarrow> ticker p' = ticker p"
  by (auto simp: parse_arg_def split: if_splits sum.splits)

lemma parse_arg_period_keep:
  "\<not> startswith a ''--period='' \<Longrightarrow> parse_arg a p = Inr p' \<Longrightarrow> period p' = period p"
  by (auto simp: parse_arg_def split: if_splits sum.splits)

lemma parse_arg_strategy_keep:
  "\<not> startswith a ''--strategy='' \<Longrightarrow> parse_arg a p = Inr p' \<Longrightarrow> strategy p' = strategy p"
  by (auto simp: parse_arg_def split: if_splits sum.splits)

lemma parse_args_ticker_keep:
  "\<forall>a\<in>set as. \<not> startswith a ''--ticker='' \<Longrightarrow> parse_args as p = Inr p' \<Longrightarrow> ticker p' = ticker p"
proof (induction as arbitrary: p)
  case Nil then show ?case by simp
next
  case (Cons a as)
  then show ?case by (auto split: sum.splits dest: parse_arg_ticker_keep)
qed

lemma parse_args_period_keep:
  "\<forall>a\<in>set as. \<not> startswith a ''--period='' \<Longrightarrow> parse_args as p = Inr p' \<Longrightarrow> period p' = period p"
proof (induction as arbitrary: p)
  case Nil then show ?case by simp
next
  case (Cons a as)
  then show ?case by (auto split: sum.splits dest: parse_arg_period_keep)
qed

lemma parse_args_strategy_keep:
  "\<forall>a\<in>set as. \<not> startswith a ''--strategy='' \<Longrightarrow> parse_args as p = Inr p' \<Longrightarrow> strategy p' = strategy p"
proof (induction as arbitrary: p)
  case Nil then show ?case by simp
next
  case (Cons a as)
  then show ?case by (auto split: sum.splits dest: parse_arg_strategy_keep)
qed


lemma parse_args_last_ticker:
  assumes "\<forall>a\<in>set ys. \<not> startswith a ''--ticker=''"
  shows "\<exists>p'. parse_args (xs @ (''--ticker='' @ v) # ys) p = Inr p' \<and>
              ticker p' = takeWhile (\<lambda>c. c \<noteq> CHR ''='') v"
proof -
  obtain p1 where p1: "parse_args xs p = Inr p1" using parse_args_total by blast
  have sw: "startswith (''--ticker='' @ v) ''--ticker=''" by (rule startswith_append)
  have p2: "parse_arg (''--ticker='' @ v) p1 = Inr (p1\<lparr>ticker := takeWhile (\<lambda>c. c \<noteq> CHR ''='') v\<rparr>)"
    unfolding parse_arg_def using sw flag_value_ticker[of v] by simp
  obtain p3 where p3: "parse_args ys (p1\<lparr>ticker := takeWhile (\<lambda>c. c \<noteq> CHR ''='') v\<rparr>) = Inr p3"
    using parse_args_total by blast
  have "ticker p3 = takeWhile (\<lambda>c. c \<noteq> CHR ''='') v"
    using parse_args_ticker_keep[OF assms p3] by simp
  moreover have "parse_args (xs @ (''--ticker='' @ v) # ys) p = Inr p3"
    using p1 p2 p3 by (simp add: parse_args_append)
  ultimately show ?thesis by blast
qed

lemma parse_args_last_period:
  assumes "\<forall>a\<in>set ys. \<not> startswith a ''--period=''"
  shows "\<exists>p'. parse_args (xs @ (''--period='' @ v) # ys) p = Inr p' \<and>
              period p' = takeWhile (\<lambda>c. c \<noteq> CHR ''='') v"
proof -
  obtain p1 where p1: "parse_args xs p = Inr p1" using parse_args_total by blast
  have sw: "startswith (''--period='' @ v) ''--period=''" by (rule startswith_append)
  have p2: "parse_arg (''--period='' @ v) p1 = Inr (p1\<lparr>period := takeWhile (\<lambda>c. c \<noteq> CHR ''='') v\<rparr>)"
    unfolding parse_arg_def using sw not_sw_tp[of "''--period='' @ v"] flag_value_period[of v] by auto
  obtain p3 where p3: "parse_args ys (p1\<lparr>period := takeWhile (\<lambda>c. c \<noteq> CHR ''='') v\<rparr>) = Inr p3"
    using parse_args_total by blast
  have "period p3 = takeWhile (\<lambda>c. c \<noteq> CHR ''='') v"
    using parse_args_period_keep[OF assms p3] by simp
  moreover have "parse_args (xs @ (''--period='' @ v) # ys) p = Inr p3"
    using p1 p2 p3 by (simp add: parse_args_append)
  ultimately show ?thesis by blast
qed

lemma parse_args_last_strategy:
  assumes "\<forall>a\<in>set ys. \<not> startswith a ''--strategy=''"
  shows "\<exists>p'. parse_args (xs @ (''--strategy='' @ v) # ys) p = Inr p' \<and>
              strategy p' = takeWhile (\<lambda>c. c \<noteq> CHR ''='') v"
proof -
  obtain p1 where p1: "parse_args xs p = Inr p1" using parse_args_total by blast
  have sw: "startswith (''--strategy='' @ v) ''--strategy=''" by (rule startswith_append)
  have p2: "parse_arg (''--strategy='' @ v) p1 = Inr (p1\<lparr>strategy := takeWhile (\<lambda>c. c \<noteq> CHR ''='') v\<rparr>)"
    unfolding parse_arg_def
    using sw not_sw_ts[of "''--strategy='' @ v"] not_sw_ps[of "''--strategy='' @ v"] flag_value_strategy[of v]
    by auto
  obtain p3 where p3: "parse_args ys (p1\<lparr>strategy := takeWhile (\<lambda>c. c \<noteq> CHR ''='') v\<rparr>) = Inr p3"
    using parse_args_total by blast
  have "strategy p3 = takeWhile (\<lambda>c. c \<noteq> CHR ''='') v"
    using parse_args_strategy_keep[OF assms p3] by simp
  moreover have "parse_args (xs @ (''--strategy='' @ v) # ys) p = Inr p3"
    using p1 p2 p3 by (simp add: parse_args_append)
  ultimately show ?thesis by blast
qed

lemma split_len_flag:
  assumes "CHR ''='' \<notin> set k"
  shows "2 \<le> length (str_split CHR ''='' (k @ CHR ''='' # v))"
proof -
  have "str_split CHR ''='' v \<noteq> []" by (rule str_split_not_Nil)
  then have "1 \<le> length (str_split CHR ''='' v)" by (cases "str_split CHR ''='' v") auto
  then show ?thesis using assms by (simp add: split_flag)
qed

lemma recognized_split:
  assumes "startswith arg ''--ticker='' \<or> startswith arg ''--period='' \<or> startswith arg ''--strategy=''"
  shows "2 \<le> length (str_split CHR ''='' arg) \<and> (\<exists>v. flag_value arg = Inr v)"
proof -
  from assms consider
      v where "arg = ''--ticker'' @ CHR ''='' # v"
    | v where "arg = ''--period'' @ CHR ''='' # v"
    | v where "arg = ''--strategy'' @ CHR ''='' # v"
    using startswithD by fastforce
  then show ?thesis
  proof cases
    case 1
    show ?thesis unfolding 1
      using split_len_flag[of "''--ticker''" v] flag_value_flag[of "''--ticker''" v] by simp
  next
    case 2
    show ?thesis unfolding 2
      using split_len_flag[of "''--period''" v] flag_value_flag[of "''--period''" v] by simp
  next
    case 3
    show ?thesis unfolding 3
      using split_len_flag[of "''--strategy''" v] flag_value_flag[of "''--strategy''" v] by simp
  qed
qed

lemma example_params_total: "\<exists>p. example_params args = Inr p"
  by (cases args) (auto simp: example_params_def parse_args_total)

text \<open>
  Claim C1. The value of a recognized token is said to be everything after the first
  \<open>=\<close>, further \<open>=\<close> included. The code takes \<^verbatim>\<open>arg.split("=")[1]\<close>, the segment
  between the first and the second \<open>=\<close>: for \<open>--ticker=A=B\<close> the ticker is \<open>A\<close>,
  not \<open>A=B\<close>.
\<close>
theorem ticker_value_cut_at_second_equals: "example_params (Some [''--ticker=A=B'']) = Inr \<lparr>ticker = ''A'', period = ''day'', strategy = ''simple''\<rparr>"
  by (simp add: example_params_def default_params_def parse_arg_def flag_value_def getitem_def startswith_def)

text \<open>
  Claim C10. For a token with a recognized prefix the split on \<open>=\<close> has at least two
  segments, so \<^verbatim>\<open>[1]\<close> is in range; the loop body and the whole parser return
  normally on every input; and a token with an empty value part resolves its parameter
  to the empty string.
\<close>
theorem flag_value_extraction_total:
  "(startswith arg ''--ticker='' \<or> startswith arg ''--period='' \<or> startswith arg ''--strategy=''
      \<longrightarrow> 2 \<le> length (str_split CHR ''='' arg) \<and> (\<exists>v. flag_value arg = Inr v)) \<and>
   (\<exists>p'. parse_arg arg p = Inr p') \<and>
   (\<exists>r. example_params args = Inr r) \<and>
   example_params (Some [''--ticker='']) = Inr \<lparr>ticker = '''', period = ''day'', strategy = ''simple''\<rparr> \<and>
   example_params (Some [''--period='']) = Inr \<lparr>ticker = ''MSFT'', period = '''', strategy = ''simple''\<rparr> \<and>
   example_params (Some [''--strategy='']) = Inr \<lparr>ticker = ''MSFT'', period = ''day'', strategy = ''''\<rparr>"
proof -
  have a: "example_params (Some [''--ticker='']) = Inr \<lparr>ticker = '''', period = ''day'', strategy = ''simple''\<rparr>"
    by (simp add: example_params_def default_params_def parse_arg_def flag_value_def getitem_def startswith_def)
  have b: "example_params (Some [''--period='']) = Inr \<lparr>ticker = ''MSFT'', period = '''', strategy = ''simple''\<rparr>"
    by (simp add: example_params_def default_params_def parse_arg_def flag_value_def getitem_def startswith_def)
  have c: "example_params (Some [''--strategy='']) = Inr \<lparr>ticker = ''MSFT'', period = ''day'', strategy = ''''\<rparr>"
    by (simp add: example_params_def default_params_def parse_arg_def flag_value_def getitem_def startswith_def)
  show ?thesis using recognized_split[of arg] parse_arg_total[of arg p] example_params_total[of args] a b c
    by blast
qed

text \<open>The recognized token \<open>--period=week\<close>.\<close>
theorem flag_value_extraction_total_witness:
  "startswith ''--period=week'' ''--period='' \<and> 2 \<le> length (str_split CHR ''='' ''--period=week'') \<and>
   flag_value ''--period=week'' = Inr ''week''"
  using flag_value_extraction_total[of "''--period=week''" default_params None]
  by (simp add: startswith_def flag_value_def getitem_def)

text \<open>
  Sequential overwrite: when no later token carries the same flag, the resolved parameter
  is what the code reads from that last token, the text after the flag's \<open>=\<close> up to the
  next \<open>=\<close>, whatever tokens come before it.
\<close>
lemma last_flag_token_read:
  "((\<forall>a\<in>set ys. \<not> startswith a ''--ticker='') \<longrightarrow>
      (\<exists>p. example_params (Some (xs @ (''--ticker='' @ v) # ys)) = Inr p \<and>
           ticker p = takeWhile (\<lambda>c. c \<noteq> CHR ''='') v)) \<and>
   ((\<forall>a\<in>set ys. \<not> startswith a ''--period='') \<longrightarrow>
      (\<exists>p. example_params (Some (xs @ (''--period='' @ v) # ys)) = Inr p \<and>
           period p = takeWhile (\<lambda>c. c \<noteq> CHR ''='') v)) \<and>
   ((\<forall>a\<in>set ys. \<not> startswith a ''--strategy='') \<longrightarrow>
      (\<exists>p. example_params (Some (xs @ (''--strategy='' @ v) # ys)) = Inr p \<and>
           strategy p = takeWhile (\<lambda>c. c \<noteq> CHR ''='') v)) \<and>
   example_params (Some [''--ticker=AAPL'', ''--ticker=GOOG'']) =
     Inr \<lparr>ticker = ''GOOG'', period = ''day'', strategy = ''simple''\<rparr>"
proof -
  have ex: "example_params (Some [''--ticker=AAPL'', ''--ticker=GOOG'']) =
     Inr \<lparr>ticker = ''GOOG'', period = ''day'', strategy = ''simple''\<rparr>"
    by (simp add: example_params_def default_params_def parse_arg_def flag_value_def getitem_def startswith_def)
  show ?thesis
    using parse_args_last_ticker[of ys xs v default_params]
      parse_args_last_period[of ys xs v default_params]
      parse_args_last_strategy[of ys xs v default_params] ex
    unfolding example_params_Some by blast
qed

text \<open>
  Claim C6. The resolved parameter is said to equal the value of the last occurrence of its
  flag. The last occurrence does overwrite the earlier ones, and \<open>--ticker=AAPL
  --ticker=GOOG\<close> resolves the ticker to \<open>GOOG\<close>; but the value read from it is cut at
  its first \<open>=\<close>: after \<open>--ticker=AAPL --ticker=EURUSD=X\<close> the ticker is
  \<open>EURUSD\<close>, not \<open>EURUSD=X\<close>.
\<close>
theorem last_occurrence_value_cut:
  "example_params (Some [''--ticker=AAPL'', ''--ticker=EURUSD=X'']) =
     Inr \<lparr>ticker = ''EURUSD'', period = ''day'', strategy = ''simple''\<rparr> \<and>
   example_params (Some [''--ticker=AAPL'', ''--ticker=GOOG'']) =
     Inr \<lparr>ticker = ''GOOG'', period = ''day'', strategy = ''simple''\<rparr>"
  by (simp add: example_params_def default_params_def parse_arg_def flag_value_def getitem_def
        startswith_def)

text \<open>
  Claim C7. With no argument list, or an empty one, the parameters are \<open>MSFT\<close>,
  \<open>day\<close>, \<open>simple\<close>; a parameter whose flag no token carries keeps its default; and
  \<open>--ticker=AAPL --period=week\<close> gives \<open>AAPL\<close>, \<open>week\<close>, \<open>simple\<close>.
\<close>
theorem unset_parameters_keep_defaults:
  "example_params None = Inr \<lparr>ticker = ''MSFT'', period = ''day'', strategy = ''simple''\<rparr> \<and>
   example_params (Some []) = Inr \<lparr>ticker = ''MSFT'', period = ''day'', strategy = ''simple''\<rparr> \<and>
   ((\<forall>a\<in>set as. \<not> startswith a ''--ticker='') \<longrightarrow>
      (\<exists>p. example_params (Some as) = Inr p \<and> ticker p = ''MSFT'')) \<and>
   ((\<forall>a\<in>set as. \<not> startswith a ''--period='') \<longrightarrow>
      (\<exists>p. example_params (Some as) = Inr p \<and> period p = ''day'')) \<and>
   ((\<forall>a\<in>set as. \<not> startswith a ''--strategy='') \<longrightarrow>
      (\<exists>p. example_params (Some as) = Inr p \<and> strategy p = ''simple'')) \<and>
   example_params (Some [''--ticker=AAPL'', ''--period=week'']) =
     Inr \<lparr>ticker = ''AAPL'', period = ''week'', strategy = ''simple''\<rparr>"
proof -
  obtain p where p: "parse_args as default_params = Inr p" using parse_args_total by blast
  have t: "ticker p = ''MSFT''" if "\<forall>a\<in>set as. \<not> startswith a ''--ticker=''"
    using parse_args_ticker_keep[OF that p] by (simp add: default_params_def)
  have d: "period p = ''day''" if "\<forall>a\<in>set as. \<not> startswith a ''--period=''"
    using parse_args_period_keep[OF that p] by (simp add: default_params_def)
  have s: "strategy p = ''simple''" if "\<forall>a\<in>set as. \<not> startswith a ''--strategy=''"
    using parse_args_strategy_keep[OF that p] by (simp add: default_params_def)
  have n: "example_params None = Inr \<lparr>ticker = ''MSFT'', period = ''day'', strategy = ''simple''\<rparr>"
    by (simp add: example_params_def default_params_def)
  have e: "example_params (Some []) = Inr \<lparr>ticker = ''MSFT'', period = ''day'', strategy = ''simple''\<rparr>"
    by (simp add: example_params_def default_params_def)
  have ex: "example_params (Some [''--ticker=AAPL'', ''--period=week'']) =
     Inr \<lparr>ticker = ''AAPL'', period = ''week'', strategy = ''simple''\<rparr>"
    by (simp add: example_params_def default_params_def parse_arg_def flag_value_def getitem_def startswith_def)
  show ?thesis using p t d s n e ex unfolding example_params_Some by blast
qed

text \<open>Two tokens that carry no flag.\<close>
theorem unset_parameters_keep_defaults_witness:
  "\<not> startswith ''--verbose'' ''--ticker='' \<and> \<not> startswith ''--verbose'' ''--period='' \<and>
   \<not> startswith ''--verbose'' ''--strategy='' \<and>
   example_params (Some [''--verbose'']) =
     Inr \<lparr>ticker = ''MSFT'', period = ''day'', strategy = ''simple''\<rparr>"
proof -
  have h: "\<not> startswith ''--verbose'' ''--ticker='' \<and> \<not> startswith ''--verbose'' ''--period='' \<and>
   \<not> startswith ''--verbose'' ''--strategy=''"
    by (simp add: startswith_def)
  then have b: "\<forall>a\<in>set [''--verbose'']. \<not> startswith a ''--ticker=''"
      "\<forall>a\<in>set [''--verbose'']. \<not> startswith a ''--period=''"
      "\<forall>a\<in>set [''--verbose'']. \<not> startswith a ''--strategy=''"
    by simp_all
  obtain p q r where
    "example_params (Some [''--verbose'']) = Inr p" "ticker p = ''MSFT''"
    "example_params (Some [''--verbose'']) = Inr q" "period q = ''day''"
    "example_params (Some [''--verbose'']) = Inr r" "strategy r = ''simple''"
    using unset_parameters_keep_defaults[of "[''--verbose'']"] b by blast
  then have "example_params (Some [''--verbose'']) = Inr p \<and> ticker p = ''MSFT'' \<and>
     period p = ''day'' \<and> strategy p = ''simple''" by simp
  then show ?thesis using h by (cases p) auto
qed

text \<open>The malformed token \<open>--ticker\<close> between two recognized ones.\<close>
theorem unrecognized_token_ignored_witness:
  "\<not> startswith ''--ticker'' ''--ticker='' \<and> \<not> startswith ''--ticker'' ''--period='' \<and>
   \<not> startswith ''--ticker'' ''--strategy='' \<and>
   example_params (Some [''--ticker=AAPL'', ''--ticker'', ''--period=week'']) =
     example_params (Some [''--ticker=AAPL'', ''--period=week'']) \<and>
   (\<exists>p. example_params (Some [''--ticker=AAPL'', ''--ticker'', ''--period=week'']) = Inr p)"
proof -
  have h1: "\<not> startswith ''--ticker'' ''--ticker=''" by (simp add: startswith_def)
  have h2: "\<not> startswith ''--ticker'' ''--period=''" by (simp add: startswith_def)
  have h3: "\<not> startswith ''--ticker'' ''--strategy=''" by (simp add: startswith_def)
  have "[''--ticker=AAPL''] @ ''--ticker'' # [''--period=week''] =
        [''--ticker=AAPL'', ''--ticker'', ''--period=week'']"
     and "[''--ticker=AAPL''] @ [''--period=week''] = [''--ticker=AAPL'', ''--period=week'']"
    by simp_all
  with unrecognized_token_ignored[OF h1 h2 h3, of "[''--ticker=AAPL'']" "[''--period=week'']"]
  have "example_params (Some [''--ticker=AAPL'', ''--ticker'', ''--period=week'']) =
     example_params (Some [''--ticker=AAPL'', ''--period=week'']) \<and>
   (\<exists>p. example_params (Some [''--ticker=AAPL'', ''--ticker'', ''--period=week'']) = Inr p)"
    by metis
  with h1 h2 h3 show ?thesis by blast
qed

section \<open>Properties of the command dispatcher\<close>

lemma procs_py_print: "procs (py_print l s) = procs s"
  by (simp add: py_print_def)

lemma subprocess_run_unchecked:
  "subprocess_run env cmd False s = Inr (s\<lparr>procs := procs s @ [cmd]\<rparr>)"
  by (simp add: subprocess_run_def)

lemma subprocess_run_checked:
  "subprocess_run env cmd True s =
     (if env (procs s) cmd \<noteq> 0
      then Inl (CalledProcessError (env (procs s) cmd) cmd, s\<lparr>procs := procs s @ [cmd]\<rparr>)
      else Inr (s\<lparr>procs := procs s @ [cmd]\<rparr>))"
  by (simp add: subprocess_run_def Let_def)

lemma run_lint_procs:
  "\<exists>s'. run_lint env args s = Inr s' \<and> procs s' = procs s @ [flake8_cmd, mypy_cmd]"
  by (simp add: run_lint_def and_then_def subprocess_run_unchecked procs_py_print)

lemma run_format_first:
  assumes "env (procs s) autoflake_cmd \<noteq> 0"
  shows "\<exists>s'. run_format env args s = Inl (CalledProcessError (env (procs s) autoflake_cmd) autoflake_cmd, s')
     \<and> procs s' = procs s @ [autoflake_cmd]"
  using assms by (simp add: run_format_def and_then_def subprocess_run_checked procs_py_print)

lemma run_format_second:
  assumes "env (procs s) autoflake_cmd = 0" and "env (procs s @ [autoflake_cmd]) black_cmd \<noteq> 0"
  shows "\<exists>s'. run_format env args s =
       Inl (CalledProcessError (env (procs s @ [autoflake_cmd]) black_cmd) black_cmd, s')
     \<and> procs s' = procs s @ [autoflake_cmd, black_cmd]"
  using assms by (simp add: run_format_def and_then_def subprocess_run_checked procs_py_print)

lemma run_format_third:
  assumes "env (procs s) autoflake_cmd = 0" and "env (procs s @ [autoflake_cmd]) black_cmd = 0"
    and "env (procs s @ [autoflake_cmd, black_cmd]) isort_cmd \<noteq> 0"
  shows "\<exists>s'. run_format env args s =
       Inl (CalledProcessError (env (procs s @ [autoflake_cmd, black_cmd]) isort_cmd) isort_cmd, s')
     \<and> procs s' = procs s @ [autoflake_cmd, black_cmd, isort_cmd]"
  using assms by (simp add: run_format_def and_then_def subprocess_run_checked procs_py_print)

lemma run_format_ok:
  assumes "env (procs s) autoflake_cmd = 0" and "env (procs s @ [autoflake_cmd]) black_cmd = 0"
    and "env (procs s @ [autoflake_cmd, black_cmd]) isort_cmd = 0"
  shows "\<exists>s'. run_format env args s = Inr s' \<and> procs s' = procs s @ [autoflake_cmd, black_cmd, isort_cmd]"
  using assms by (simp add: run_format_def and_then_def subprocess_run_checked procs_py_print)

lemma run_format_procs:
  "run_format env args s = Inl (e, s') \<or> run_format env args s = Inr s' \<Longrightarrow>
   \<exists>cs. procs s' = procs s @ cs \<and> set cs \<subseteq> {autoflake_cmd, black_cmd, isort_cmd}"
  by (auto simp: run_format_def and_then_def subprocess_run_checked procs_py_print split: if_splits)

lemma cmds_distinct:
  "flake8_cmd \<notin> {autoflake_cmd, black_cmd, isort_cmd}"
  "mypy_cmd \<notin> {autoflake_cmd, black_cmd, isort_cmd}"
  "build_cmd \<notin> {autoflake_cmd, black_cmd, isort_cmd}"
  by (simp_all add: flake8_cmd_def mypy_cmd_def build_cmd_def autoflake_cmd_def black_cmd_def isort_cmd_def)

text \<open>
  Claim C8. Whatever exit codes the outside world gives, \<open>run_lint\<close> returns normally
  and has launched exactly the style checker and then the type checker.
\<close>
theorem lint_runs_both_checkers:
  "\<exists>s'. run_lint env args s = Inr s' \<and> procs s' = procs s @ [flake8_cmd, mypy_cmd]"
  by (rule run_lint_procs)

text \<open>
  Claim C3. When the unused-import remover exits non-zero, \<open>run_format\<close> raises
  \<open>CalledProcessError\<close> with it as the only invocation launched; when it exits zero
  and the formatter exits non-zero, \<open>run_format\<close> raises after these two, and the
  import sorter is not launched. The three commands are different.
\<close>
theorem format_fail_fast:
  "(env (procs s) autoflake_cmd \<noteq> 0 \<longrightarrow>
      (\<exists>s'. run_format env args s =
              Inl (CalledProcessError (env (procs s) autoflake_cmd) autoflake_cmd, s') \<and>
            procs s' = procs s @ [autoflake_cmd])) \<and>
   (env (procs s) autoflake_cmd = 0 \<and> env (procs s @ [autoflake_cmd]) black_cmd \<noteq> 0 \<longrightarrow>
      (\<exists>s'. run_format env args s =
              Inl (CalledProcessError (env (procs s @ [autoflake_cmd]) black_cmd) black_cmd, s') \<and>
            procs s' = procs s @ [autoflake_cmd, black_cmd])) \<and>
   distinct [autoflake_cmd, black_cmd, isort_cmd]"
proof -
  have "distinct [autoflake_cmd, black_cmd, isort_cmd]"
    by (simp add: autoflake_cmd_def black_cmd_def isort_cmd_def)
  then show ?thesis
    using run_format_first[of env s args] run_format_second[of env s args] by blast
qed

text \<open>A world where the first step exits with 2, and one where the second exits with 1.\<close>
theorem format_fail_fast_witness:
  "(\<exists>s'. run_format (\<lambda>h c. if c = autoflake_cmd then 2 else 0) None \<lparr>procs = [], stdout = []\<rparr> =
           Inl (CalledProcessError 2 autoflake_cmd, s') \<and> procs s' = [autoflake_cmd]) \<and>
   (\<exists>s'. run_format (\<lambda>h c. if c = black_cmd then 1 else 0) None \<lparr>procs = [], stdout = []\<rparr> =
           Inl (CalledProcessError 1 black_cmd, s') \<and> procs s' = [autoflake_cmd, black_cmd])"
proof -
  have ne: "black_cmd \<noteq> autoflake_cmd" by (simp add: autoflake_cmd_def black_cmd_def)
  have a: "\<exists>s'. run_format (\<lambda>h c. if c = autoflake_cmd then 2 else 0) None \<lparr>procs = [], stdout = []\<rparr> =
           Inl (CalledProcessError 2 autoflake_cmd, s') \<and> procs s' = [autoflake_cmd]"
    using format_fail_fast[of "\<lambda>h c. if c = autoflake_cmd then 2 else 0" "\<lparr>procs = [], stdout = []\<rparr>" None]
    by simp
  have b: "\<exists>s'. run_format (\<lambda>h c. if c = black_cmd then 1 else 0) None \<lparr>procs = [], stdout = []\<rparr> =
           Inl (CalledProcessError 1 black_cmd, s') \<and> procs s' = [autoflake_cmd, black_cmd]"
    using format_fail_fast[of "\<lambda>h c. if c = black_cmd then 1 else 0" "\<lparr>procs = [], stdout = []\<rparr>" None] ne
    by simp
  from a b show ?thesis by blast
qed

lemma run_verify_unfold:
  "run_verify env args s =
     (case run_format env args
             (py_print (CHR 0x0A # memo @ '' Formatting code...'')
                (py_print (magnifier_left @ '' Running pre-build verification...'') s)) of
        Inl x \<Rightarrow> Inl x
      | Inr s1 \<Rightarrow>
          (case run_lint env args (py_print (CHR 0x0A # magnifier_right @ '' Linting code...'') s1) of
             Inl x \<Rightarrow> Inl x
           | Inr s2 \<Rightarrow>
               Inr (py_print (CHR 0x0A # check_mark @ '' Verification and build complete!'')
                     ((py_print (CHR 0x0A # package @ '' Building package...'') s2)
                        \<lparr>procs := procs s2 @ [build_cmd]\<rparr>))))"
  by (simp add: run_verify_def and_then_def subprocess_run_unchecked procs_py_print split: sum.splits)

text \<open>
  Claim C2. When the format phase of \<open>run_verify\<close> raises, \<open>run_verify\<close> raises the
  same exception in the same state, and none of the two checkers and the package builder is
  among the invocations launched. When the format phase returns, \<open>run_verify\<close> returns
  and has launched the two checkers and then the package builder, whatever their exit codes.
\<close>
theorem verify_format_gate:
  "(run_format env args
       (py_print (CHR 0x0A # memo @ '' Formatting code...'')
          (py_print (magnifier_left @ '' Running pre-build verification...'') s)) = Inl (e, s1) \<longrightarrow>
      run_verify env args s = Inl (e, s1) \<and>
      (\<exists>cs. procs s1 = procs s @ cs \<and> flake8_cmd \<notin> set cs \<and> mypy_cmd \<notin> set cs \<and> build_cmd \<notin> set cs)) \<and>
   (run_format env args
       (py_print (CHR 0x0A # memo @ '' Formatting code...'')
          (py_print (magnifier_left @ '' Running pre-build verification...'') s)) = Inr s1 \<longrightarrow>
      (\<exists>s'. run_verify env args s = Inr s' \<and>
            procs s' = procs s1 @ [flake8_cmd, mypy_cmd, build_cmd]))"
proof (intro conjI impI)
  assume f: "run_format env args
       (py_print (CHR 0x0A # memo @ '' Formatting code...'')
          (py_print (magnifier_left @ '' Running pre-build verification...'') s)) = Inl (e, s1)"
  then show "run_verify env args s = Inl (e, s1)" by (simp add: run_verify_unfold)
  from run_format_procs[OF disjI1, OF f]
  obtain cs where cs: "procs s1 = procs s @ cs" "set cs \<subseteq> {autoflake_cmd, black_cmd, isort_cmd}"
    by (auto simp: procs_py_print)
  then have "flake8_cmd \<notin> set cs \<and> mypy_cmd \<notin> set cs \<and> build_cmd \<notin> set cs"
    using cmds_distinct by blast
  with cs show "\<exists>cs. procs s1 = procs s @ cs \<and> flake8_cmd \<notin> set cs \<and> mypy_cmd \<notin> set cs \<and> build_cmd \<notin> set cs"
    by blast
next
  assume f: "run_format env args
       (py_print (CHR 0x0A # memo @ '' Formatting code...'')
          (py_print (magnifier_left @ '' Running pre-build verification...'') s)) = Inr s1"
  obtain s2 where s2: "run_lint env args (py_print (CHR 0x0A # magnifier_right @ '' Linting code...'') s1) = Inr s2"
      "procs s2 = procs s1 @ [flake8_cmd, mypy_cmd]"
    using run_lint_procs[of env args "py_print (CHR 0x0A # magnifier_right @ '' Linting code...'') s1"]
    by (auto simp: procs_py_print)
  show "\<exists>s'. run_verify env args s = Inr s' \<and> procs s' = procs s1 @ [flake8_cmd, mypy_cmd, build_cmd]"
    using f s2 by (simp add: run_verify_unfold procs_py_print)
qed

text \<open>
  A world where the first format step exits with 1, and one where only the two checkers
  exit with 1.
\<close>
theorem verify_format_gate_witness:
  "(\<exists>e s1. run_verify (\<lambda>h c. if c = autoflake_cmd then 1 else 0) None \<lparr>procs = [], stdout = []\<rparr> =
             Inl (e, s1) \<and> procs s1 = [autoflake_cmd]) \<and>
   (\<exists>s'. run_verify (\<lambda>h c. if c = flake8_cmd \<or> c = mypy_cmd then 1 else 0) None
            \<lparr>procs = [], stdout = []\<rparr> = Inr s' \<and>
         procs s' = [autoflake_cmd, black_cmd, isort_cmd, flake8_cmd, mypy_cmd, build_cmd])"
proof -
  let ?s0 = "\<lparr>procs = [], stdout = []\<rparr>"
  let ?b = "py_print (CHR 0x0A # memo @ '' Formatting code...'')
          (py_print (magnifier_left @ '' Running pre-build verification...'') ?s0)"
  let ?ea = "\<lambda>(h::command list) c. if c = autoflake_cmd then (1::int) else 0"
  let ?eb = "\<lambda>(h::command list) c. if c = flake8_cmd \<or> c = mypy_cmd then (1::int) else 0"
  obtain s1 where f: "run_format ?ea None ?b = Inl (CalledProcessError 1 autoflake_cmd, s1)"
      and p1: "procs s1 = [autoflake_cmd]"
    using run_format_first[of ?ea ?b None] by (auto simp: procs_py_print)
  have a: "run_verify ?ea None ?s0 = Inl (CalledProcessError 1 autoflake_cmd, s1)"
    using verify_format_gate[of ?ea None ?s0 "CalledProcessError 1 autoflake_cmd" s1] f by blast
  have d: "autoflake_cmd \<noteq> flake8_cmd" "autoflake_cmd \<noteq> mypy_cmd" "black_cmd \<noteq> flake8_cmd"
      "black_cmd \<noteq> mypy_cmd" "isort_cmd \<noteq> flake8_cmd" "isort_cmd \<noteq> mypy_cmd"
    using cmds_distinct by auto
  obtain s2 where g: "run_format ?eb None ?b = Inr s2"
      and p2: "procs s2 = [autoflake_cmd, black_cmd, isort_cmd]"
    using run_format_ok[of ?eb ?b None] d by (auto simp: procs_py_print)
  obtain s' where b: "run_verify ?eb None ?s0 = Inr s'"
      "procs s' = procs s2 @ [flake8_cmd, mypy_cmd, build_cmd]"
    using verify_format_gate[of ?eb None ?s0 IndexError s2] g by blast
  from a p1 b p2 show ?thesis by auto
qed

section \<open>Properties of the workspace cleaner\<close>

subsection \<open>Paths\<close>

lemma path_parts_name: "valid_name n \<Longrightarrow> path_parts n = [n]"
  by (simp add: valid_name_def path_parts_def str_split_no_sep)

lemma path_parts_dot: "path_parts ''.'' = []"
  by (simp add: path_parts_def)




lemma valid_last:
  assumes "valid_name n"
  shows "last n \<noteq> CHR ''/''"
proof -
  have "n \<noteq> []" and "CHR ''/'' \<notin> set n" using assms by (simp_all add: valid_name_def)
  then show ?thesis using last_in_set[of n] by metis
qed



subsection \<open>Entries of a directory\<close>

lemma find_name_Some:
  "distinct (map name es) \<Longrightarrow> e \<in> set es \<Longrightarrow> find (\<lambda>x. name x = name e) es = Some e"
  by (induction es) (auto simp: rev_image_eqI)



lemma stat_plain:
  assumes "p \<noteq> []" and "last p \<noteq> CHR ''/''"
  shows "stat fs p = walk_path (Dir ''.'' fs) (path_parts p)"
  using assms by (auto simp: stat_def split: option.splits node.splits)

lemma stat_name:
  assumes "valid_name n"
  shows "stat fs n = find (\<lambda>x. name x = n) fs"
proof -
  have "n \<noteq> []" using assms by (simp add: valid_name_def)
  then show ?thesis
    using assms by (simp add: stat_plain valid_last path_parts_name split: option.splits)
qed

lemma isdir_entry:
  assumes "wf_dir fs" and "e \<in> set fs"
  shows "os_path_isdir fs (name e) = is_dir e"
proof -
  have v: "valid_name (name e)" using assms by (cases e) (auto simp: wf_dir_def)
  have "find (\<lambda>x. name x = name e) fs = Some e"
    using assms by (simp add: wf_dir_def find_name_Some)
  then show ?thesis using v by (simp add: os_path_isdir_def stat_name)
qed

lemma add_egg_info_filter:
  "add_egg_info fs items acc =
     acc @ filter (\<lambda>i. endswith i ''.egg-info'' \<and> os_path_isdir fs i) items"
  by (induction items arbitrary: acc) auto

lemma listdir_dot: "os_listdir fs ''.'' = Inr (map name fs)"
  by (simp add: os_listdir_def os_scandir_def stat_def path_parts_dot)

lemma dirs_to_remove_eq:
  assumes "wf_dir fs"
  shows "dirs_to_remove fs =
     Inr (fixed_artifacts @ map name (filter (\<lambda>e. endswith (name e) ''.egg-info'' \<and> is_dir e) fs))"
proof -
  have "filter (\<lambda>i. endswith i ''.egg-info'' \<and> os_path_isdir fs i) (map name fs) =
        map name (filter (\<lambda>e. endswith (name e) ''.egg-info'' \<and> is_dir e) fs)"
    unfolding filter_map o_def
    by (rule arg_cong[where f="map name"], rule filter_cong) (auto simp: isdir_entry[OF assms])
  then show ?thesis by (simp add: dirs_to_remove_def listdir_dot add_egg_info_filter)
qed

subsection \<open>The list of paths to remove\<close>

text \<open>
  Claim C4, as stated, fails: a regular file of the working directory whose name ends
  with \<open>.egg-info\<close> is not appended to the list (the loop also asks
  \<^verbatim>\<open>os.path.isdir(item)\<close>); on this tree \<open>run_clean\<close> removes nothing.
\<close>
theorem egg_info_file_not_listed:
  "endswith (name (File ''pkg.egg-info'')) ''.egg-info'' \<and>
   dirs_to_remove [File ''pkg.egg-info''] = Inr fixed_artifacts \<and>
   ''pkg.egg-info'' \<notin> set fixed_artifacts \<and>
   run_clean 1 None \<lparr>cwd = [File ''pkg.egg-info''], printed = []\<rparr> =
     Some (Inr \<lparr>cwd = [File ''pkg.egg-info''], printed = [check_mark @ '' Clean complete'']\<rparr>)"
proof -
  have v: "valid_name ''pkg.egg-info''" by (simp add: valid_name_def)
  have w: "wf_dir [File ''pkg.egg-info'']" using v by (simp add: wf_dir_def)
  have a: "endswith (name (File ''pkg.egg-info'')) ''.egg-info''" by (simp add: endswith_def)
  have b: "dirs_to_remove [File ''pkg.egg-info''] = Inr fixed_artifacts"
    by (simp add: dirs_to_remove_eq[OF w])
  have c: "''pkg.egg-info'' \<notin> set fixed_artifacts" by (simp add: fixed_artifacts_def)
  have ne: "\<not> os_path_exists [File ''pkg.egg-info''] p" if "p \<in> set fixed_artifacts" for p
    using that by (auto simp: fixed_artifacts_def os_path_exists_def stat_def path_parts_def)
  have r: "remove_paths fixed_artifacts \<lparr>cwd = [File ''pkg.egg-info''], printed = []\<rparr> =
        Inr \<lparr>cwd = [File ''pkg.egg-info''], printed = []\<rparr>"
    using ne by (simp add: fixed_artifacts_def remove_path_def)
  have sc: "os_scandir [File ''pkg.egg-info''] ''.'' = Inr [File ''pkg.egg-info'']"
    by (simp add: os_scandir_def stat_def path_parts_dot)
  have e: "\<not> endswith ''pkg.egg-info'' ''.pyc''" by (simp add: endswith_def)
  have wk: "os_walk (Suc 0) ''.'' \<lparr>cwd = [File ''pkg.egg-info''], printed = []\<rparr> =
        Some (Inr \<lparr>cwd = [File ''pkg.egg-info''], printed = []\<rparr>)"
    using sc e by (simp add: walk_body_def)
  have d: "run_clean 1 None \<lparr>cwd = [File ''pkg.egg-info''], printed = []\<rparr> =
     Some (Inr \<lparr>cwd = [File ''pkg.egg-info''], printed = [check_mark @ '' Clean complete'']\<rparr>)"
    using b r wk by (simp add: run_clean_def report_def)
  from a b c d show ?thesis by blast
qed

text \<open>
  Claim C4, amended. The list the first loop leaves is the fixed artifact list followed by
  the names, in listing order, of the immediate children of the working directory that end
  with \<open>.egg-info\<close> and are directories; the name of an entry with that suffix that is
  not a directory is not in the list.
\<close>
theorem egg_info_directories_listed:
  assumes "wf_dir fs"
  shows "dirs_to_remove fs =
           Inr (fixed_artifacts @
                map name (filter (\<lambda>e. endswith (name e) ''.egg-info'' \<and> is_dir e) fs)) \<and>
         (e \<in> set fs \<and> endswith (name e) ''.egg-info'' \<and> \<not> is_dir e \<longrightarrow>
            name e \<notin> set (fixed_artifacts @
                map name (filter (\<lambda>e. endswith (name e) ''.egg-info'' \<and> is_dir e) fs)))"
proof (intro conjI impI)
  show "dirs_to_remove fs =
           Inr (fixed_artifacts @
                map name (filter (\<lambda>e. endswith (name e) ''.egg-info'' \<and> is_dir e) fs))"
    using assms by (rule dirs_to_remove_eq)
next
  assume a: "e \<in> set fs \<and> endswith (name e) ''.egg-info'' \<and> \<not> is_dir e"
  have "\<forall>p\<in>set fixed_artifacts. \<not> endswith p ''.egg-info''"
    by (simp add: fixed_artifacts_def endswith_def)
  then have nf: "name e \<notin> set fixed_artifacts" using a by blast
  have nd: "name e \<notin> set (map name (filter (\<lambda>e. endswith (name e) ''.egg-info'' \<and> is_dir e) fs))"
  proof
    assume "name e \<in> set (map name (filter (\<lambda>e. endswith (name e) ''.egg-info'' \<and> is_dir e) fs))"
    then obtain e' where e': "e' \<in> set fs" "is_dir e'" "name e' = name e" by auto
    have ds: "distinct (map name fs)" using assms by (simp add: wf_dir_def)
    have "find (\<lambda>x. name x = name e) fs = Some e" using find_name_Some[OF ds] a by blast
    moreover have "find (\<lambda>x. name x = name e') fs = Some e'" using find_name_Some[OF ds e'(1)] .
    ultimately have "e = e'" using e'(3) by simp
    then show False using a e'(2) by simp
  qed
  show "name e \<notin> set (fixed_artifacts @
                map name (filter (\<lambda>e. endswith (name e) ''.egg-info'' \<and> is_dir e) fs))"
    using nf nd by simp
qed

text \<open>A metadata directory, a file with the same suffix, and a source directory.\<close>
theorem egg_info_directories_listed_witness:
  "wf_dir [Dir ''pkg.egg-info'' [File ''PKG-INFO''], File ''other.egg-info'', Dir ''src'' []] \<and>
   dirs_to_remove [Dir ''pkg.egg-info'' [File ''PKG-INFO''], File ''other.egg-info'', Dir ''src'' []] =
     Inr [''build/'', ''dist/'', ''.pytest_cache/'', ''.mypy_cache/'', ''htmlcov/'', ''.coverage'',
          ''pkg.egg-info''] \<and>
   endswith ''other.egg-info'' ''.egg-info'' \<and>
   ''other.egg-info'' \<notin> set [''build/'', ''dist/'', ''.pytest_cache/'', ''.mypy_cache/'', ''htmlcov/'',
          ''.coverage'', ''pkg.egg-info'']"
proof -
  have w: "wf_dir [Dir ''pkg.egg-info'' [File ''PKG-INFO''], File ''other.egg-info'', Dir ''src'' []]"
    by (simp add: wf_dir_def valid_name_def)
  have e: "endswith ''other.egg-info'' ''.egg-info''" by (simp add: endswith_def)
  show ?thesis using egg_info_directories_listed[OF w, of "File ''other.egg-info''"] w e
    by (simp add: fixed_artifacts_def endswith_def)
qed

subsection \<open>Directories along a path\<close>











subsection \<open>Replacing the content of a directory\<close>









subsection \<open>The primitives at a path below a directory\<close>










subsection \<open>The body of the walk\<close>










subsection \<open>The tree the walk leaves\<close>





lemma purge_Dir: "purge (Dir n sub) = Dir n (purge_dir sub)"
  by (simp add: purge_dir_def)












subsection \<open>The first pass\<close>






subsection \<open>Depth\<close>





subsection \<open>Purging twice\<close>




subsection \<open>One run of the cleaner\<close>









end
